theory Spec2Isabelle
  imports Complex_Main
begin

section \<open>Data model of \<^verbatim>\<open>train_agent.py\<close>\<close>

text \<open>
  The two chex dataclasses are records of arrays. An array field has no fixed rank in the
  source (one ply of a batch, a whole batch of games, one example, a stacked mini-batch),
  so every field type is a parameter. An array indexed along its leading axis is a list.
  Rewards and values are modelled as real numbers: the only arithmetic the trajectory
  compiler does on them is negation, which is exact on floating-point numbers.
\<close>

record ('s, 'w, 'v) TrainingExample =
  state :: 's
  action_weights :: 'w
  "value" :: 'v

record ('s, 'r, 't, 'w) MoveOutput =
  state :: 's
  reward :: 'r
  terminated :: 't
  action_weights :: 'w

text \<open>The exceptions of the Python run time that the modelled code can raise.\<close>

datatype py_error = IndexError | ValueError | TypeError | ZeroDivisionError

text \<open>\<^verbatim>\<open>xs[i]\<close> for a non-negative index: out of range raises IndexError.\<close>

definition getitem :: "'a list \<Rightarrow> nat \<Rightarrow> py_error + 'a" where
  "getitem xs i = (if i < length xs then Inr (xs ! i) else Inl IndexError)"

section \<open>The trajectory compiler \<^verbatim>\<open>prepare_training_data\<close>\<close>

type_synonym ('s, 'w) example = "('s, 'w, real) TrainingExample"

type_synonym ('s, 'w) game_batch =
  "('s list list, real list list, bool list list, 'w list list) MoveOutput"

text \<open>
  The inner loop \<^verbatim>\<open>for j in range(L)\<close> of one game. Its state is the local
  \<^verbatim>\<open>value\<close> (\<open>None\<close> until the first non-terminated ply is met) and the buffer, which
  is shared by all games. \<^verbatim>\<open>reward[idx]\<close> is read only while \<^verbatim>\<open>value\<close> is None.
\<close>

fun inner_loop ::
  "'s list \<Rightarrow> bool list \<Rightarrow> 'w list \<Rightarrow> real list \<Rightarrow> nat \<Rightarrow> nat list \<Rightarrow>
   real option \<times> ('s, 'w) example list \<Rightarrow>
   py_error + (real option \<times> ('s, 'w) example list)" where
  "inner_loop st is_terminated aw rw L [] acc = Inr acc"
| "inner_loop st is_terminated aw rw L (j # js) (v, buffer) =
     (let idx = L - 1 - j in
      case getitem is_terminated idx of
        Inl e \<Rightarrow> Inl e
      | Inr t \<Rightarrow>
          if t then inner_loop st is_terminated aw rw L js (v, buffer)
          else
            (case (case v of None \<Rightarrow> getitem rw idx | Some u \<Rightarrow> Inr (- u)) of
               Inl e \<Rightarrow> Inl e
             | Inr v' \<Rightarrow>
                 (case getitem st idx of
                    Inl e \<Rightarrow> Inl e
                  | Inr s \<Rightarrow>
                      (case getitem aw idx of
                         Inl e \<Rightarrow> Inl e
                       | Inr a \<Rightarrow>
                           inner_loop st is_terminated aw rw L js
                             (Some v',
                              buffer @ [\<lparr>TrainingExample.state = s,
                                         TrainingExample.action_weights = a,
                                         value = v'\<rparr>])))))"

text \<open>The outer loop \<^verbatim>\<open>for i in range(N)\<close> over the games of the batch.\<close>

fun outer_loop ::
  "('s, 'w) game_batch \<Rightarrow> nat list \<Rightarrow> ('s, 'w) example list \<Rightarrow>
   py_error + ('s, 'w) example list" where
  "outer_loop data [] buffer = Inr buffer"
| "outer_loop data (i # is) buffer =
     (case getitem (MoveOutput.state data) i of
        Inl e \<Rightarrow> Inl e
      | Inr st \<Rightarrow>
     (case getitem (terminated data) i of
        Inl e \<Rightarrow> Inl e
      | Inr is_terminated \<Rightarrow>
     (case getitem (MoveOutput.action_weights data) i of
        Inl e \<Rightarrow> Inl e
      | Inr aw \<Rightarrow>
     (case getitem (reward data) i of
        Inl e \<Rightarrow> Inl e
      | Inr rw \<Rightarrow>
          (let L = length is_terminated in
           case inner_loop st is_terminated aw rw L [0..<L] (None, buffer) of
             Inl e \<Rightarrow> Inl e
           | Inr (v, buffer') \<Rightarrow> outer_loop data is buffer')))))"

definition prepare_training_data ::
  "('s, 'w) game_batch \<Rightarrow> py_error + ('s, 'w) example list" where
  "prepare_training_data data =
     (let N = length (terminated data) in outer_loop data [0..<N] [])"

text \<open>The plies of one game that are not padding, in ply order.\<close>

definition nonterminated :: "bool list \<Rightarrow> nat list" where
  "nonterminated is_terminated = filter (\<lambda>k. \<not> is_terminated ! k) [0..<length is_terminated]"

text \<open>
  What one run of the inner loop appends, given the non-padding plies in the order the loop
  visits them and the \<^verbatim>\<open>value\<close> it starts from. It is used to describe \<open>inner_loop\<close> in
  the proofs.
\<close>

fun emit :: "'s list \<Rightarrow> 'w list \<Rightarrow> real list \<Rightarrow> nat list \<Rightarrow> real option \<Rightarrow> ('s, 'w) example list" where
  "emit st aw rw [] v = []"
| "emit st aw rw (k # ks) v =
     (let v' = (case v of None \<Rightarrow> rw ! k | Some u \<Rightarrow> - u) in
      \<lparr>TrainingExample.state = st ! k, TrainingExample.action_weights = aw ! k, value = v'\<rparr>
        # emit st aw rw ks (Some v'))"

text \<open>
  The four arrays of a batch have the same shape (games \<times> plies): the batch is what
  \<^verbatim>\<open>collect_selfplay_data\<close> returns.
\<close>

definition same_shape :: "'a list list \<Rightarrow> 'b list list \<Rightarrow> bool" where
  "same_shape xs ys = list_all2 (\<lambda>x y. length x = length y) xs ys"

definition wf_batch :: "('s, 'w) game_batch \<Rightarrow> bool" where
  "wf_batch data \<longleftrightarrow>
     same_shape (terminated data) (MoveOutput.state data) \<and>
     same_shape (terminated data) (MoveOutput.action_weights data) \<and>
     same_shape (terminated data) (reward data)"

text \<open>The examples of game \<open>i\<close>: the inner loop of the source run on an empty buffer.\<close>

definition examples_of_game :: "('s, 'w) game_batch \<Rightarrow> nat \<Rightarrow> ('s, 'w) example list" where
  "examples_of_game data i =
     (let is_terminated = terminated data ! i; L = length is_terminated in
      case inner_loop (MoveOutput.state data ! i) is_terminated
             (MoveOutput.action_weights data ! i) (reward data ! i) L [0..<L] (None, []) of
        Inl e \<Rightarrow> []
      | Inr (v, buffer) \<Rightarrow> buffer)"




section \<open>The loss \<^verbatim>\<open>loss_fn\<close>\<close>

text \<open>
  The loss is modelled over the real numbers: \<^verbatim>\<open>jnp.exp\<close> is \<open>exp\<close>, the logarithm is \<open>ln\<close>,
  rounding is left out. \<^verbatim>\<open>optax.l2_loss\<close> is half the squared error, \<^verbatim>\<open>jnp.mean\<close> the sum
  over the length, \<^verbatim>\<open>jax.nn.log_softmax\<close> the input minus the logarithm of the sum of the
  exponentials, and \<^verbatim>\<open>jnp.clip(x, a_min=-50, a_max=None)\<close> the maximum with the floor.
\<close>

definition l2_loss :: "real \<Rightarrow> real \<Rightarrow> real" where
  "l2_loss predictions targets = 0.5 * (predictions - targets)\<^sup>2"

definition mean :: "real list \<Rightarrow> real" where
  "mean xs = sum_list xs / real (length xs)"

definition log_softmax :: "real list \<Rightarrow> real list" where
  "log_softmax xs = map (\<lambda>x. x - ln (sum_list (map exp xs))) xs"

definition clip_min :: "real \<Rightarrow> real \<Rightarrow> real" where
  "clip_min a_min x = max a_min x"

text \<open>
  A mini-batch is a \<^verbatim>\<open>TrainingExample\<close> of stacked arrays. The model
  \<^verbatim>\<open>batched_policy\<close> is not part of this file of the repository and is a parameter: it
  maps the network and the batch of states to one row of action logits per example and one
  value per example. The lines of \<open>loss_fn\<close> follow the lines of the source.
\<close>

type_synonym 's example_batch = "('s list, real list list, real list) TrainingExample"

definition loss_fn ::
  "('n \<Rightarrow> 's list \<Rightarrow> real list list \<times> real list) \<Rightarrow> 'n \<Rightarrow> 's example_batch \<Rightarrow>
   real \<times> (real \<times> real)" where
  "loss_fn batched_policy net data =
     (let (action_logits, value) = batched_policy net (TrainingExample.state data);
          mse_loss = map2 l2_loss value (TrainingExample.value data);
          mse_loss = mean mse_loss;
          action_logits = map log_softmax action_logits;
          action_prs = map (map exp) action_logits;
          target_logits = map log_softmax (TrainingExample.action_weights data);
          target_logits = map (map (clip_min (- 50))) target_logits;
          kl_loss = map2 (\<lambda>prs d. sum_list (map2 (*) prs d)) action_prs
                      (map2 (map2 (-)) action_logits target_logits);
          kl_loss = mean kl_loss
      in (mse_loss + kl_loss, (mse_loss, kl_loss)))"

text \<open>The two components \<^verbatim>\<open>(mse_loss, kl_loss)\<close> of the auxiliary output.\<close>

definition value_loss :: "real \<times> (real \<times> real) \<Rightarrow> real" where
  "value_loss out = fst (snd out)"

definition policy_loss :: "real \<times> (real \<times> real) \<Rightarrow> real" where
  "policy_loss out = snd (snd out)"

text \<open>
  The policy loss as the specification words it, to be compared with \<open>loss_fn\<close>: the
  Kullback-Leibler divergence between the target distribution (the example's
  \<^verbatim>\<open>action_weights\<close>, a probability vector) and the predicted distribution, where the
  logarithm of a target probability is clamped at \<open>-50\<close> (the logarithm of probability zero
  is minus infinity, hence clamped). The wording fixes no direction, so both are defined.
\<close>

definition clamped_log :: "real \<Rightarrow> real" where
  "clamped_log p = (if p \<le> 0 then - 50 else max (- 50) (ln p))"

definition predicted_distribution :: "real list \<Rightarrow> real list" where
  "predicted_distribution logits = map exp (log_softmax logits)"

definition kl_predicted_from_target :: "real list \<Rightarrow> real list \<Rightarrow> real" where
  "kl_predicted_from_target target predicted =
     sum_list (map2 (\<lambda>q p. p * (ln p - clamped_log q)) target predicted)"

definition kl_target_from_predicted :: "real list \<Rightarrow> real list \<Rightarrow> real" where
  "kl_target_from_predicted target predicted =
     sum_list (map2 (\<lambda>q p. q * (clamped_log q - ln p)) target predicted)"

text \<open>
  Two mini-batches of one example over two actions: a network that predicts the uniform
  distribution against the target \<open>[1, 0]\<close>, and a network whose prediction \<open>[2/3, 1/3]\<close>
  equals the target.
\<close>

definition uniform_policy :: "unit \<Rightarrow> unit list \<Rightarrow> real list list \<times> real list" where
  "uniform_policy net st = ([[0, 0]], [0])"

definition one_hot_example :: "unit example_batch" where
  "one_hot_example =
     \<lparr>TrainingExample.state = [()], TrainingExample.action_weights = [[1, 0]], value = [0]\<rparr>"

definition matching_policy :: "unit \<Rightarrow> unit list \<Rightarrow> real list list \<times> real list" where
  "matching_policy net st = ([[ln 2, 0]], [0])"

definition matching_example :: "unit example_batch" where
  "matching_example =
     \<lparr>TrainingExample.state = [()], TrainingExample.action_weights = [[2 / 3, 1 / 3]],
      value = [0]\<rparr>"

section \<open>The training epoch of \<^verbatim>\<open>train\<close>\<close>

text \<open>
  \<^verbatim>\<open>range(start, stop, step)\<close> of Python: a zero step raises ValueError, a positive step
  counts up while below \<open>stop\<close>, a negative step counts down while above \<open>stop\<close>.
\<close>

function range_up :: "int \<Rightarrow> int \<Rightarrow> int \<Rightarrow> int list" where
  "range_up i stop step =
     (if 0 < step \<and> i < stop then i # range_up (i + step) stop step else [])"
  by pat_completeness auto

termination
  by (relation "measure (\<lambda>(i, stop, step). nat (stop - i))") auto

function range_down :: "int \<Rightarrow> int \<Rightarrow> int \<Rightarrow> int list" where
  "range_down i stop step =
     (if step < 0 \<and> stop < i then i # range_down (i + step) stop step else [])"
  by pat_completeness auto

termination
  by (relation "measure (\<lambda>(i, stop, step). nat (i - stop))") auto

definition py_range :: "int \<Rightarrow> int \<Rightarrow> int \<Rightarrow> py_error + int list" where
  "py_range start stop step =
     (if step = 0 then Inl ValueError
      else if 0 < step then Inr (range_up start stop step)
      else Inr (range_down start stop step))"

text \<open>
  \<^verbatim>\<open>x[i : j]\<close> on an array, for \<open>0 \<le> i\<close> and \<open>0 \<le> j\<close> (the loop of \<^verbatim>\<open>train\<close> takes no other
  slice): the elements from \<open>i\<close> up to but excluding \<open>j\<close>, cut at the end of the array.
\<close>

definition py_slice :: "'a list \<Rightarrow> int \<Rightarrow> int \<Rightarrow> 'a list" where
  "py_slice xs i j = take (nat j - nat i) (drop (nat i) xs)"

text \<open>
  \<^verbatim>\<open>jax.tree_map(lambda *xs: np.stack(xs), *buffer)\<close>: the list of examples becomes one
  example of stacked arrays. On an empty list the call has no tree argument and raises
  TypeError.
\<close>

definition stack_examples ::
  "('s, 'w) example list \<Rightarrow> py_error + ('s list, 'w list, real list) TrainingExample" where
  "stack_examples buffer =
     (if buffer = [] then Inl TypeError
      else Inr \<lparr>TrainingExample.state = map TrainingExample.state buffer,
                TrainingExample.action_weights = map TrainingExample.action_weights buffer,
                value = map value buffer\<rparr>)"

text \<open>\<^verbatim>\<open>jax.tree_map(lambda x: x[i : (i + batch_size)], buffer)\<close>.\<close>

definition slice_batch ::
  "('s list, 'w list, real list) TrainingExample \<Rightarrow> int \<Rightarrow> int \<Rightarrow>
   ('s list, 'w list, real list) TrainingExample" where
  "slice_batch buffer i j =
     \<lparr>TrainingExample.state = py_slice (TrainingExample.state buffer) i j,
      TrainingExample.action_weights = py_slice (TrainingExample.action_weights buffer) i j,
      value = py_slice (value buffer) i j\<rparr>"

text \<open>
  \<^verbatim>\<open>train_step\<close>: the losses are those of \<open>loss_fn\<close> on the current network; the gradient
  of the loss and \<^verbatim>\<open>opax.apply_gradients\<close> are library code and are parameters.
\<close>

definition train_step ::
  "('n \<Rightarrow> 's list \<Rightarrow> real list list \<times> real list) \<Rightarrow> ('n \<Rightarrow> 's example_batch \<Rightarrow> 'g) \<Rightarrow>
   ('n \<Rightarrow> 'o \<Rightarrow> 'g \<Rightarrow> 'n \<times> 'o) \<Rightarrow> 'n \<Rightarrow> 'o \<Rightarrow> 's example_batch \<Rightarrow>
   'n \<times> 'o \<times> (real \<times> real)" where
  "train_step batched_policy grad apply_gradients net optim data =
     (let losses = snd (loss_fn batched_policy net data);
          grads = grad net data;
          (net', optim') = apply_gradients net optim grads
      in (net', optim', losses))"

text \<open>The loop \<^verbatim>\<open>for i in bar\<close> over the start indices of the mini-batches.\<close>

fun train_loop ::
  "('n \<Rightarrow> 's list \<Rightarrow> real list list \<times> real list) \<Rightarrow> ('n \<Rightarrow> 's example_batch \<Rightarrow> 'g) \<Rightarrow>
   ('n \<Rightarrow> 'o \<Rightarrow> 'g \<Rightarrow> 'n \<times> 'o) \<Rightarrow> int \<Rightarrow> 's example_batch \<Rightarrow> int list \<Rightarrow>
   'n \<times> 'o \<times> (real \<times> real) list \<Rightarrow> 'n \<times> 'o \<times> (real \<times> real) list" where
  "train_loop batched_policy grad apply_gradients batch_size buffer [] acc = acc"
| "train_loop batched_policy grad apply_gradients batch_size buffer (i # is)
     (agent, optim, losses) =
     (let batch = slice_batch buffer i (i + batch_size);
          (agent', optim', loss) = train_step batched_policy grad apply_gradients agent optim batch
      in train_loop batched_policy grad apply_gradients batch_size buffer is
           (agent', optim', losses @ [loss]))"

text \<open>
  \<^verbatim>\<open>value_loss, policy_loss = zip(*losses)\<close>: with no loss recorded the zip is empty and the
  unpacking into two names raises ValueError.
\<close>

definition unzip_losses :: "(real \<times> real) list \<Rightarrow> py_error + (real list \<times> real list)" where
  "unzip_losses losses =
     (if losses = [] then Inl ValueError else Inr (map fst losses, map snd losses))"

text \<open>
  One iteration of \<^verbatim>\<open>train\<close> from the shuffled buffer on: stacking, the mini-batch loop
  and the averages of the two losses. It returns the updated network and optimiser state
  with the two averages. An exception leaves \<^verbatim>\<open>train\<close> altogether.
\<close>

definition train_epoch ::
  "('n \<Rightarrow> 's list \<Rightarrow> real list list \<times> real list) \<Rightarrow> ('n \<Rightarrow> 's example_batch \<Rightarrow> 'g) \<Rightarrow>
   ('n \<Rightarrow> 'o \<Rightarrow> 'g \<Rightarrow> 'n \<times> 'o) \<Rightarrow> int \<Rightarrow> 'n \<Rightarrow> 'o \<Rightarrow> ('s, real list) example list \<Rightarrow>
   py_error + ('n \<times> 'o \<times> real \<times> real)" where
  "train_epoch batched_policy grad apply_gradients batch_size agent optim shuffled =
     (case stack_examples shuffled of
        Inl e \<Rightarrow> Inl e
      | Inr buffer \<Rightarrow>
          (let N = int (length (TrainingExample.state buffer)) in
           case py_range 0 (N - batch_size) batch_size of
             Inl e \<Rightarrow> Inl e
           | Inr starts \<Rightarrow>
               (let (agent', optim', losses) =
                      train_loop batched_policy grad apply_gradients batch_size buffer starts
                        (agent, optim, [])
                in case unzip_losses losses of
                     Inl e \<Rightarrow> Inl e
                   | Inr unzipped \<Rightarrow>
                       (let (value_loss, policy_loss) = unzipped
                        in Inr (agent', optim',
                                sum_list value_loss / real (length value_loss),
                                sum_list policy_loss / real (length policy_loss))))))"

text \<open>
  The mini-batches one epoch trains on, as index ranges into the shuffled buffer: the slices
  the loop takes, in order.
\<close>

definition minibatches :: "int \<Rightarrow> 'a list \<Rightarrow> py_error + 'a list list" where
  "minibatches batch_size shuffled =
     (case py_range 0 (int (length shuffled) - batch_size) batch_size of
        Inl e \<Rightarrow> Inl e
      | Inr starts \<Rightarrow> Inr (map (\<lambda>i. py_slice shuffled i (i + batch_size)) starts))"

text \<open>
  An instrumented network for concrete runs: the network is the number of examples it has
  been trained on, the optimiser state the number of updates, the gradient the size of the
  mini-batch.
\<close>

definition counting_policy :: "nat \<Rightarrow> 's list \<Rightarrow> real list list \<times> real list" where
  "counting_policy net st = (map (\<lambda>s. [0, 0]) st, map (\<lambda>s. 0) st)"

definition counting_grad :: "nat \<Rightarrow> 's example_batch \<Rightarrow> nat" where
  "counting_grad net data = length (TrainingExample.state data)"

definition counting_update :: "nat \<Rightarrow> nat \<Rightarrow> nat \<Rightarrow> nat \<times> nat" where
  "counting_update net optim grads = (net + grads, optim + 1)"

definition numbered_examples :: "nat \<Rightarrow> (nat, real list) example list" where
  "numbered_examples n =
     map (\<lambda>k. \<lparr>TrainingExample.state = k, TrainingExample.action_weights = [1, 0],
                value = 1\<rparr>) [0..<n]"

text \<open>What \<open>train_epoch\<close> leaves of the network and the optimiser state.\<close>

definition trained :: "py_error + ('n \<times> 'o \<times> real \<times> real) \<Rightarrow> py_error + ('n \<times> 'o)" where
  "trained result = (case result of Inl e \<Rightarrow> Inl e | Inr (agent, optim, avg) \<Rightarrow> Inr (agent, optim))"

section \<open>Self-play: \<^verbatim>\<open>collect_batched_selfplay_data\<close> and \<^verbatim>\<open>collect_selfplay_data\<close>\<close>

text \<open>
  The collaborators of the self-play driver are not part of this file of the repository
  and are parameters, collected in one record:
  \<^item> \<open>random_split\<close> is \<^verbatim>\<open>jax.random.split(key, num)\<close>, which returns \<open>num\<close> keys;
  \<^item> \<open>reset_env\<close>, \<open>canonical_observation\<close>, \<open>is_terminated\<close> and \<open>env_step\<close> are the
    environment, applied to each game of the batch (\<^verbatim>\<open>jax.vmap\<close>);
  \<^item> \<open>search\<close> is \<^verbatim>\<open>batched_policy\<close> followed by \<^verbatim>\<open>mctx.gumbel_muzero_policy\<close>: for the
    network, the key and the batch of environments it gives, for each game of the batch,
    the selected action and the action weights.
  A batch of environments is a list of environments, \<^verbatim>\<open>replicate(env, batch_size)\<close> is
  \<open>replicate batch_size env\<close>. Sizes are natural numbers.
\<close>

record ('n, 'e, 'k, 's, 'a, 'w) collaborators =
  random_split :: "'k \<Rightarrow> nat \<Rightarrow> 'k list"
  reset_env :: "'e \<Rightarrow> 'e"
  canonical_observation :: "'e \<Rightarrow> 's"
  is_terminated :: "'e \<Rightarrow> bool"
  search :: "'n \<Rightarrow> 'k \<Rightarrow> 'e list \<Rightarrow> nat \<Rightarrow> 'a \<times> 'w"
  env_step :: "'e \<Rightarrow> 'a \<Rightarrow> 'e \<times> real"

type_synonym ('s, 'w) ply_batch = "('s list, real list, bool list, 'w list) MoveOutput"

text \<open>
  \<^verbatim>\<open>single_move\<close>: one ply of all games of the batch. The observation and the terminated
  flag are taken before the move, the reward after it.
\<close>

definition single_move ::
  "('n, 'e, 'k, 's, 'a, 'w) collaborators \<Rightarrow> 'n \<Rightarrow> 'e list \<times> 'k \<Rightarrow>
   ('e list \<times> 'k) \<times> ('s, 'w) ply_batch" where
  "single_move c agent prev =
     (let (env, rng_key) = prev;
          keys = random_split c rng_key 2;
          rng_key = keys ! 0;
          rng_key_next = keys ! 1;
          state = map (canonical_observation c) env;
          terminated = map (is_terminated c) env;
          policy_output = map (search c agent rng_key env) [0..<length env];
          stepped = map2 (env_step c) env (map fst policy_output);
          env = map fst stepped;
          reward = map snd stepped
      in ((env, rng_key_next),
          \<lparr>MoveOutput.state = state, reward = reward, terminated = terminated,
           MoveOutput.action_weights = map snd policy_output\<rparr>))"

text \<open>\<^verbatim>\<open>pax.scan(f, init, None, length=n)\<close>: \<open>n\<close> steps, the outputs collected in order.\<close>

fun scan :: "('c \<Rightarrow> 'c \<times> 'y) \<Rightarrow> 'c \<Rightarrow> nat \<Rightarrow> 'c \<times> 'y list" where
  "scan f carry 0 = (carry, [])"
| "scan f carry (Suc n) =
     (let (carry', y) = f carry; (final, ys) = scan f carry' n in (final, y # ys))"

text \<open>
  \<^verbatim>\<open>time_major=False\<close>: the stacked outputs (plies \<times> games) are returned with the game
  axis first.
\<close>

definition batch_major :: "('s, 'w) ply_batch list \<Rightarrow> ('s, 'w) game_batch" where
  "batch_major plies =
     \<lparr>MoveOutput.state = transpose (map MoveOutput.state plies),
      reward = transpose (map reward plies),
      terminated = transpose (map terminated plies),
      MoveOutput.action_weights = transpose (map MoveOutput.action_weights plies)\<rparr>"

definition collect_batched_selfplay_data ::
  "('n, 'e, 'k, 's, 'a, 'w) collaborators \<Rightarrow> 'n \<Rightarrow> 'e \<Rightarrow> 'k \<Rightarrow> nat \<Rightarrow> ('s, 'w) game_batch" where
  "collect_batched_selfplay_data c agent env rng_key batch_size =
     (let env = reset_env c env;
          env = replicate batch_size env;
          (final, selfplay_data) = scan (single_move c agent) (env, rng_key) 4
      in batch_major selfplay_data)"

text \<open>
  \<^verbatim>\<open>jax.tree_map(lambda *xs: np.concatenate(xs), *data)\<close>: the batches are concatenated
  along the game axis, field by field. With an empty list the call has no tree argument
  and raises TypeError.
\<close>

definition concatenate_batches :: "('s, 'w) game_batch list \<Rightarrow> py_error + ('s, 'w) game_batch" where
  "concatenate_batches data =
     (if data = [] then Inl TypeError
      else Inr \<lparr>MoveOutput.state = concat (map MoveOutput.state data),
                reward = concat (map reward data),
                terminated = concat (map terminated data),
                MoveOutput.action_weights = concat (map MoveOutput.action_weights data)\<rparr>)"

text \<open>
  The list \<^verbatim>\<open>data\<close> that the loop of \<^verbatim>\<open>collect_selfplay_data\<close> builds: one call of the
  driver per key, in the order of the keys.
\<close>

definition selfplay_batches ::
  "('n, 'e, 'k, 's, 'a, 'w) collaborators \<Rightarrow> 'n \<Rightarrow> 'e \<Rightarrow> 'k \<Rightarrow> nat \<Rightarrow> nat \<Rightarrow>
   ('s, 'w) game_batch list" where
  "selfplay_batches c agent env rng_key batch_size data_size =
     (let N = data_size div batch_size;
          rng_keys = random_split c rng_key N
      in map (\<lambda>rng_key. collect_batched_selfplay_data c agent env rng_key batch_size) rng_keys)"

definition collect_selfplay_data ::
  "('n, 'e, 'k, 's, 'a, 'w) collaborators \<Rightarrow> 'n \<Rightarrow> 'e \<Rightarrow> 'k \<Rightarrow> nat \<Rightarrow> nat \<Rightarrow>
   py_error + ('s, 'w) game_batch" where
  "collect_selfplay_data c agent env rng_key batch_size data_size =
     (if batch_size = 0 then Inl ZeroDivisionError
      else concatenate_batches (selfplay_batches c agent env rng_key batch_size data_size))"

text \<open>
  A small game for concrete runs: the environment counts the moves made and is terminated
  after three, the third move is rewarded; a key is a number and splitting appends a digit.
\<close>

definition counter_game :: "(unit, nat, nat, nat, nat, nat) collaborators" where
  "counter_game =
     \<lparr>random_split = (\<lambda>key num. map (\<lambda>i. 10 * key + i + 1) [0..<num]),
      reset_env = (\<lambda>env. 0),
      canonical_observation = (\<lambda>env. env),
      is_terminated = (\<lambda>env. 3 \<le> env),
      search = (\<lambda>agent key env g. (g, key)),
      env_step = (\<lambda>env action. if 3 \<le> env then (env, 0) else (env + 1, if env = 2 then 1 else 0))\<rparr>"


section \<open>Properties of the trajectory compiler\<close>

lemma inner_loop_emit:
  assumes "\<forall>j\<in>set js. L - 1 - j < length tm \<and> L - 1 - j < length st
             \<and> L - 1 - j < length aw \<and> L - 1 - j < length rw"
  shows "\<exists>v'. inner_loop st tm aw rw L js (v, buffer) =
           Inr (v', buffer @ emit st aw rw (filter (\<lambda>k. \<not> tm ! k) (map (\<lambda>j. L - 1 - j) js)) v)"
  using assms
proof (induction js arbitrary: v buffer)
  case Nil
  then show ?case by simp
next
  case (Cons j js)
  let ?idx = "L - 1 - j"
  let ?ks = "filter (\<lambda>k. \<not> tm ! k) (map (\<lambda>j. L - 1 - j) js)"
  from Cons.prems have inr: "?idx < length tm" "?idx < length st" "?idx < length aw"
    "?idx < length rw" by simp_all
  from Cons.prems have rest: "\<forall>j\<in>set js. L - 1 - j < length tm \<and> L - 1 - j < length st
             \<and> L - 1 - j < length aw \<and> L - 1 - j < length rw" by simp
  show ?case
  proof (cases "tm ! ?idx")
    case True
    with inr Cons.IH [OF rest, of v buffer] show ?thesis
      by (simp add: getitem_def)
  next
    case False
    define v' where "v' = (case v of None \<Rightarrow> rw ! ?idx | Some u \<Rightarrow> - u)"
    define ex where "ex = \<lparr>TrainingExample.state = st ! ?idx,
      TrainingExample.action_weights = aw ! ?idx, value = v'\<rparr>"
    have step: "inner_loop st tm aw rw L (j # js) (v, buffer) =
        inner_loop st tm aw rw L js (Some v', buffer @ [ex])"
      using False inr by (cases v) (simp_all add: getitem_def v'_def ex_def Let_def)
    have em: "emit st aw rw (filter (\<lambda>k. \<not> tm ! k) (map (\<lambda>j. L - 1 - j) (j # js))) v =
        ex # emit st aw rw ?ks (Some v')"
      using False by (cases v) (simp_all add: v'_def ex_def Let_def)
    from Cons.IH [OF rest, of "Some v'" "buffer @ [ex]"] obtain w where
      "inner_loop st tm aw rw L js (Some v', buffer @ [ex]) =
         Inr (w, (buffer @ [ex]) @ emit st aw rw ?ks (Some v'))" by blast
    with step em show ?thesis by simp
  qed
qed

lemma rev_upt_map: "map (\<lambda>j. L - 1 - j) [0..<L] = rev [0..<L]"
  by (rule nth_equalityI) (auto simp: rev_nth)



lemma same_shapeD:
  "same_shape xs ys \<Longrightarrow> length ys = length xs"
  "same_shape xs ys \<Longrightarrow> i < length xs \<Longrightarrow> length (ys ! i) = length (xs ! i)"
  by (auto simp: same_shape_def list_all2_conv_all_nth)

lemma wf_batchD:
  assumes "wf_batch data" "i < length (terminated data)"
  shows "i < length (MoveOutput.state data)" "i < length (MoveOutput.action_weights data)"
    "i < length (reward data)"
    "length (MoveOutput.state data ! i) = length (terminated data ! i)"
    "length (MoveOutput.action_weights data ! i) = length (terminated data ! i)"
    "length (reward data ! i) = length (terminated data ! i)"
  using assms by (auto simp: wf_batch_def same_shapeD)

lemma inner_loop_game:
  assumes "length st = length tm" "length aw = length tm" "length rw = length tm"
  shows "\<exists>v'. inner_loop st tm aw rw (length tm) [0..<length tm] (None, buffer) =
           Inr (v', buffer @ emit st aw rw (rev (nonterminated tm)) None)"
proof -
  have "\<forall>j\<in>set [0..<length tm]. length tm - 1 - j < length tm \<and> length tm - 1 - j < length st
             \<and> length tm - 1 - j < length aw \<and> length tm - 1 - j < length rw"
    using assms by auto
  from inner_loop_emit [OF this, of None buffer] show ?thesis
    by (simp only: rev_upt_map rev_filter nonterminated_def)
qed

lemma examples_of_game_emit:
  assumes "wf_batch data" "i < length (terminated data)"
  shows "examples_of_game data i =
     emit (MoveOutput.state data ! i) (MoveOutput.action_weights data ! i) (reward data ! i)
       (rev (nonterminated (terminated data ! i))) None"
proof -
  from inner_loop_game [OF wf_batchD(4-6) [OF assms], of "[]"] show ?thesis
    by (auto simp: examples_of_game_def)
qed

lemma outer_loop_concat:
  assumes "wf_batch data" "\<forall>i\<in>set js. i < length (terminated data)"
  shows "outer_loop data js buffer = Inr (buffer @ concat (map (examples_of_game data) js))"
  using assms(2)
proof (induction js arbitrary: buffer)
  case Nil
  show ?case by simp
next
  case (Cons i js)
  then have i: "i < length (terminated data)" by simp
  note d = wf_batchD [OF assms(1) i]
  from inner_loop_game [OF d(4-6), of buffer] obtain v' where
    "inner_loop (MoveOutput.state data ! i) (terminated data ! i)
       (MoveOutput.action_weights data ! i) (reward data ! i) (length (terminated data ! i))
       [0..<length (terminated data ! i)] (None, buffer) =
     Inr (v', buffer @ examples_of_game data i)"
    by (auto simp: examples_of_game_emit [OF assms(1) i])
  with Cons i d(1-3) show ?case
    by (simp add: getitem_def)
qed

lemma prepare_training_data_concat:
  assumes "wf_batch data"
  shows "prepare_training_data data =
           Inr (concat (map (examples_of_game data) [0..<length (terminated data)]))"
  using outer_loop_concat [OF assms, of "[0..<length (terminated data)]" "[]"]
  by (simp add: prepare_training_data_def)
















section \<open>Properties of the loss\<close>

lemma exp_1_le_3: "exp (1::real) \<le> 3"
  by (rule exp_le)

lemma ln_exp_1_plus_1: "ln (exp 1 + 1 :: real) \<le> 3"
proof -
  have "ln (1 + exp 1 :: real) \<le> exp 1"
    by (rule ln_add_one_self_le_self) simp
  with exp_1_le_3 show ?thesis by (simp add: add.commute)
qed

lemma ln_exp_1_plus_1_pos: "0 \<le> ln (exp 1 + 1 :: real)"
  by (rule ln_ge_zero) simp

lemma ln_exp_1_plus_1_le: "ln (exp 1 + 1 :: real) \<le> ln 4"
  using exp_1_le_3 by (intro ln_mono) (simp_all add: add_pos_pos)

lemma exp_minus_ln_2: "exp (- ln 2 :: real) = 1 / 2"
  by (simp add: exp_minus)

lemma policy_loss_one_hot:
  "policy_loss (loss_fn uniform_policy () one_hot_example) = ln (exp 1 + 1) - ln 2 - 1 / 2"
  using ln_exp_1_plus_1 ln_exp_1_plus_1_pos
  by (simp add: policy_loss_def loss_fn_def mean_def log_softmax_def clip_min_def l2_loss_def
      uniform_policy_def one_hot_example_def Let_def exp_minus_ln_2 max_def) argo

text \<open>
  Claim C3 (policy loss definition). The claim: the policy loss is the KL divergence between
  the target distribution \<^verbatim>\<open>action_weights\<close> and the predicted distribution, with the
  logarithm of the target clamped at \<open>-50\<close>. The source takes
  \<^verbatim>\<open>log_softmax(data.action_weights)\<close> where the logarithm of the target probabilities is
  meant, so the divergence is measured against the softmax of the target. For the uniform
  prediction and the target \<open>[1, 0]\<close> the source computes \<open>ln (e + 1) - ln 2 - 1/2\<close>, which is
  neither of the two divergences of the claim (\<open>25 - ln 2\<close> and \<open>ln 2\<close>).
\<close>

theorem policy_loss_is_not_kl_to_action_weights:
  "policy_loss (loss_fn uniform_policy () one_hot_example) = ln (exp 1 + 1) - ln 2 - 1 / 2 \<and>
   predicted_distribution [0, 0] = [1 / 2, 1 / 2] \<and>
   kl_predicted_from_target [1, 0] (predicted_distribution [0, 0]) = 25 - ln 2 \<and>
   kl_target_from_predicted [1, 0] (predicted_distribution [0, 0]) = ln 2 \<and>
   policy_loss (loss_fn uniform_policy () one_hot_example) \<noteq>
     kl_predicted_from_target [1, 0] (predicted_distribution [0, 0]) \<and>
   policy_loss (loss_fn uniform_policy () one_hot_example) \<noteq>
     kl_target_from_predicted [1, 0] (predicted_distribution [0, 0])"
proof -
  have pd: "predicted_distribution [0, 0] = [1 / 2, 1 / 2]"
    by (simp add: predicted_distribution_def log_softmax_def exp_minus_ln_2)
  have a: "kl_predicted_from_target [1, 0] [1 / 2, 1 / 2] = 25 - ln 2"
    by (simp add: kl_predicted_from_target_def clamped_log_def ln_div) argo
  have b: "kl_target_from_predicted [1, 0] [1 / 2, 1 / 2] = ln 2"
    by (simp add: kl_target_from_predicted_def clamped_log_def ln_div)
  have ln2: "0 \<le> ln (2::real)" by simp
  have ln4: "ln (4::real) = 2 * ln 2"
    using ln_realpow [of 2 2] by simp
  have c: "ln (exp 1 + 1) - ln 2 - 1 / 2 \<noteq> 25 - ln (2::real)"
    using ln_exp_1_plus_1 by simp
  have d: "ln (exp 1 + 1) - ln 2 - 1 / 2 \<noteq> ln (2::real)"
    using ln_exp_1_plus_1_le ln4 by simp
  show ?thesis
    unfolding policy_loss_one_hot pd a b using c d by simp
qed

lemma ln_less_minus_one:
  assumes "0 < x" "x \<noteq> 1"
  shows "ln x < x - (1::real)"
  using ln_le_minus_one [OF assms(1)] ln_eq_minus_one [OF assms(1)] assms(2) by fastforce

lemma two_point_kl_pos:
  fixes p1 p2 l1 l2 :: real
  assumes p: "0 < p1" "0 < p2" "p1 + p2 = 1"
    and q: "exp l1 + exp l2 = 1" "exp l1 \<noteq> p1"
  shows "0 < p1 * (ln p1 - l1) + p2 * (ln p2 - l2)"
proof -
  have "ln (exp l1 / p1) < exp l1 / p1 - 1"
    using p(1) q(2) by (intro ln_less_minus_one) simp_all
  then have "l1 - ln p1 < exp l1 / p1 - 1"
    using p(1) by (simp add: ln_div)
  then have a: "p1 * (l1 - ln p1) < exp l1 - p1"
    using p(1) mult_strict_left_mono [of "l1 - ln p1" "exp l1 / p1 - 1" p1]
    by (simp add: right_diff_distrib)
  have "ln (exp l2 / p2) \<le> exp l2 / p2 - 1"
    using p(2) by (intro ln_le_minus_one) simp
  then have "l2 - ln p2 \<le> exp l2 / p2 - 1"
    using p(2) by (simp add: ln_div)
  then have b: "p2 * (l2 - ln p2) \<le> exp l2 - p2"
    using p(2) mult_left_mono [of "l2 - ln p2" "exp l2 / p2 - 1" p2]
    by (simp add: right_diff_distrib)
  have "p1 * (l1 - ln p1) + p2 * (l2 - ln p2) < 0"
    using a b p(3) q(1) by linarith
  then show ?thesis by (simp add: right_diff_distrib)
qed

lemma exp_third_neq_2: "exp (1 / 3 :: real) \<noteq> 2"
proof
  assume "exp (1 / 3 :: real) = 2"
  then have "exp (1 / 3 :: real) ^ 3 = 8" by simp
  then have "exp (1::real) = 8" by (simp add: exp_of_nat_mult [symmetric])
  with exp_1_le_3 show False by simp
qed

lemma ln_Z_bound: "ln (exp (2 / 3) + exp (1 / 3) :: real) \<le> 5"
proof -
  have "exp (2 / 3 :: real) \<le> exp 1" "exp (1 / 3 :: real) \<le> exp 1" by simp_all
  with exp_1_le_3 have "exp (2 / 3) + exp (1 / 3) \<le> (6::real)" by linarith
  moreover have "ln (exp (2 / 3) + exp (1 / 3) :: real) \<le> exp (2 / 3) + exp (1 / 3) - 1"
    by (intro ln_le_minus_one add_pos_pos) simp_all
  ultimately show ?thesis by linarith
qed

lemma policy_loss_matching:
  "policy_loss (loss_fn matching_policy () matching_example) =
     2 / 3 * (ln (2 / 3) - (2 / 3 - ln (exp (2 / 3) + exp (1 / 3)))) +
     1 / 3 * (ln (1 / 3) - (1 / 3 - ln (exp (2 / 3) + exp (1 / 3))))"
proof -
  have e1: "exp (ln 2 - ln 3 :: real) = 2 / 3" by (simp add: exp_diff)
  have e2: "exp (- ln 3 :: real) = 1 / 3" by (simp add: exp_minus)
  show ?thesis
    using ln_Z_bound
    by (simp add: policy_loss_def loss_fn_def mean_def log_softmax_def clip_min_def l2_loss_def
        matching_policy_def matching_example_def Let_def e1 e2 ln_div max_def)
qed

text \<open>
  Claim C5 (loss non-negativity and identity). The claim: the policy loss is zero whenever
  the predicted distribution equals the target distribution. With logits \<open>[ln 2, 0]\<close> the
  prediction is \<open>[2/3, 1/3]\<close>, equal to the target, and the policy loss of the source is
  strictly positive: it compares the prediction with the softmax of the target.
\<close>

theorem policy_loss_positive_at_matching_prediction:
  "predicted_distribution [ln 2, 0] = [2 / 3, 1 / 3] \<and>
   fst (matching_policy () [()]) = [[ln 2, 0]] \<and>
   TrainingExample.action_weights matching_example = [[2 / 3, 1 / 3]] \<and>
   0 < policy_loss (loss_fn matching_policy () matching_example)"
proof -
  let ?Z = "exp (2 / 3) + exp (1 / 3) :: real"
  have Z: "0 < ?Z" by (intro add_pos_pos) simp_all
  have e1: "exp (ln 2 - ln 3 :: real) = 2 / 3" by (simp add: exp_diff)
  have e2: "exp (- ln 3 :: real) = 1 / 3" by (simp add: exp_minus)
  have pd: "predicted_distribution [ln 2, 0] = [2 / 3, 1 / 3]"
    by (simp add: predicted_distribution_def log_softmax_def e1 e2)
  have sq: "exp (2 / 3 :: real) = exp (1 / 3) * exp (1 / 3)"
    by (simp add: exp_add [symmetric])
  have s1: "exp (2 / 3 - ln ?Z) + exp (1 / 3 - ln ?Z) = 1"
    using Z by (simp add: exp_diff add_divide_distrib [symmetric])
  have ne: "exp (2 / 3 - ln ?Z) \<noteq> 2 / 3"
  proof
    assume "exp (2 / 3 - ln ?Z) = 2 / 3"
    then have "exp (2 / 3) / ?Z = 2 / 3" using Z by (simp add: exp_diff)
    then have "3 * exp (2 / 3 :: real) = 2 * ?Z" using Z by (simp add: field_simps)
    then have "exp (1 / 3 :: real) * exp (1 / 3) = 2 * exp (1 / 3)" using sq by simp
    then have "exp (1 / 3 :: real) = 2" by simp
    with exp_third_neq_2 show False by simp
  qed
  have "0 < 2 / 3 * (ln (2 / 3) - (2 / 3 - ln ?Z)) + 1 / 3 * (ln (1 / 3) - (1 / 3 - ln ?Z))"
    by (rule two_point_kl_pos [OF _ _ _ s1 ne]) simp_all
  then show ?thesis
    unfolding policy_loss_matching using pd
    by (simp add: matching_policy_def matching_example_def)
qed

section \<open>Properties of the training epoch\<close>

declare range_up.simps [simp del] range_down.simps [simp del]

lemma range_up_Nil: "stop \<le> i \<Longrightarrow> range_up i stop step = []"
  by (simp add: range_up.simps)

lemma range_up_length:
  "0 < step \<Longrightarrow> length (range_up i stop step) = nat ((stop - i + step - 1) div step)"
proof (induction i stop step rule: range_up.induct)
  case (1 i stop step)
  show ?case
  proof (cases "i < stop")
    case True
    with "1.prems" have ih: "length (range_up (i + step) stop step) =
        nat ((stop - (i + step) + step - 1) div step)"
      by (intro "1.IH") simp_all
    have a: "(stop - i + step - 1) div step = (stop - i - 1) div step + 1"
      using "1.prems" div_add_self2 [of step "stop - i - 1"] by (simp add: algebra_simps)
    have b: "0 \<le> (stop - i - 1) div step"
      using True "1.prems" by (simp add: pos_imp_zdiv_nonneg_iff)
    have "length (range_up i stop step) = Suc (length (range_up (i + step) stop step))"
      using True "1.prems" by (subst range_up.simps) simp
    with ih a b show ?thesis by (simp add: nat_add_distrib algebra_simps)
  next
    case False
    with "1.prems" have "(stop - i + step - 1) div step \<le> (step - 1) div step"
      by (intro zdiv_mono1) simp_all
    moreover have "(step - 1) div step = 0"
      using "1.prems" by (simp add: div_pos_pos_trivial)
    ultimately show ?thesis using False by (simp add: range_up_Nil)
  qed
qed

lemma range_up_nth:
  "0 < step \<Longrightarrow> k < length (range_up i stop step) \<Longrightarrow>
   range_up i stop step ! k = i + int k * step"
proof (induction i stop step arbitrary: k rule: range_up.induct)
  case (1 i stop step)
  show ?case
  proof (cases "i < stop")
    case True
    then have unf: "range_up i stop step = i # range_up (i + step) stop step"
      using "1.prems"(1) by (subst range_up.simps) simp
    show ?thesis
    proof (cases k)
      case 0
      with unf show ?thesis by simp
    next
      case (Suc k')
      with "1.prems" unf have "k' < length (range_up (i + step) stop step)" by simp
      with True "1.prems"(1) have "range_up (i + step) stop step ! k' = i + step + int k' * step"
        by (intro "1.IH") simp_all
      with unf Suc show ?thesis by (simp add: algebra_simps)
    qed
  next
    case False
    with "1.prems" show ?thesis by (simp add: range_up_Nil)
  qed
qed

lemma minibatch_count:
  assumes "0 < batch_size"
  shows "minibatches batch_size shuffled =
           Inr (map (\<lambda>k. py_slice shuffled (int k * batch_size) (int k * batch_size + batch_size))
                  [0..<nat ((int (length shuffled) - 1) div batch_size)])"
proof -
  let ?N = "int (length shuffled)"
  let ?r = "range_up 0 (?N - batch_size) batch_size"
  have len: "length ?r = nat ((?N - 1) div batch_size)"
    using assms by (simp add: range_up_length)
  have "?r = map (\<lambda>k. int k * batch_size) [0..<nat ((?N - 1) div batch_size)]"
    by (rule nth_equalityI) (simp_all add: len range_up_nth [OF assms])
  then show ?thesis
    using assms by (simp add: minibatches_def py_range_def comp_def)
qed

lemma minibatches_divisible:
  assumes "0 < batch_size" "0 < q" "int (length shuffled) = q * batch_size"
  shows "\<exists>bs. minibatches batch_size shuffled = Inr bs \<and> int (length bs) = q - 1"
proof -
  have "(q * batch_size - 1) div batch_size = q - 1"
  proof -
    have "q * batch_size - 1 = (batch_size - 1) + (q - 1) * batch_size"
      by (simp add: algebra_simps)
    then have "(q * batch_size - 1) div batch_size =
        ((batch_size - 1) + (q - 1) * batch_size) div batch_size" by (simp only:)
    also have "\<dots> = (batch_size - 1) div batch_size + (q - 1)"
      using assms(1) by (subst div_mult_self1) simp_all
    also have "\<dots> = q - 1" using assms(1) by (simp add: div_pos_pos_trivial)
    finally show ?thesis .
  qed
  with assms show ?thesis
    by (simp add: minibatch_count [OF assms(1)])
qed


text \<open>
  Claim C4 (mini-batch partitioning). The claim: the epoch trains on contiguous mini-batches
  of size \<open>M\<close> and drops only a final partial one, so that for \<open>M\<close> dividing \<open>N\<close> there are
  \<open>N / M\<close> mini-batches and every example is used. The loop runs over
  \<^verbatim>\<open>range(0, N - batch_size, batch_size)\<close>, whose stop excludes the start \<open>N - M\<close> of the last
  full mini-batch when \<open>M\<close> divides \<open>N\<close> (\<open>minibatches_divisible\<close>: \<open>N / M - 1\<close> mini-batches).
  With 4 examples and mini-batches of 2 the epoch trains on the first two examples only:
  the instrumented network has seen 2 examples in 1 update.
\<close>

theorem last_full_minibatch_dropped:
  "minibatches 2 (numbered_examples 4) = Inr [take 2 (numbered_examples 4)] \<and>
   trained (train_epoch counting_policy counting_grad counting_update 2 0 0
              (numbered_examples 4)) = Inr (2, 1)"
  by (simp add: minibatches_def py_range_def py_slice_def trained_def train_epoch_def
      numbered_examples_def stack_examples_def range_up.simps slice_batch_def train_step_def
      counting_grad_def counting_update_def unzip_losses_def Let_def)




section \<open>Properties of the self-play collection\<close>

lemma scan_4:
  "scan f carry 4 =
     (let (c1, y1) = f carry; (c2, y2) = f c1; (c3, y3) = f c2; (c4, y4) = f c3
      in (c4, [y1, y2, y3, y4]))"
  by (simp add: numeral_eq_Suc split: prod.splits)

lemma single_move_lengths:
  assumes "single_move c agent (env, rng_key) = ((env', rng_key'), out)"
  shows "length env' = length env" "length (MoveOutput.state out) = length env"
    "length (reward out) = length env" "length (terminated out) = length env"
    "length (MoveOutput.action_weights out) = length env"
  using assms by (auto simp: single_move_def Let_def)

lemma driver_games:
  "length (terminated (collect_batched_selfplay_data c agent env rng_key batch_size)) = batch_size"
proof -
  obtain e1 k1 y1 where s1:
    "single_move c agent (replicate batch_size (reset_env c env), rng_key) = ((e1, k1), y1)"
    by (metis surj_pair)
  obtain e2 k2 y2 where s2: "single_move c agent (e1, k1) = ((e2, k2), y2)"
    by (metis surj_pair)
  obtain e3 k3 y3 where s3: "single_move c agent (e2, k2) = ((e3, k3), y3)"
    by (metis surj_pair)
  obtain e4 k4 y4 where s4: "single_move c agent (e3, k3) = ((e4, k4), y4)"
    by (metis surj_pair)
  note l1 = single_move_lengths [OF s1]
  note l2 = single_move_lengths [OF s2]
  note l3 = single_move_lengths [OF s3]
  note l4 = single_move_lengths [OF s4]
  have "collect_batched_selfplay_data c agent env rng_key batch_size =
      batch_major [y1, y2, y3, y4]"
    by (simp add: collect_batched_selfplay_data_def scan_4 s1 s2 s3 s4)
  then show ?thesis
    using l1 l2 l3 l4 by (simp add: batch_major_def length_transpose)
qed

lemma selfplay_batches_length:
  assumes "\<forall>n. length (random_split c rng_key n) = n"
  shows "length (selfplay_batches c agent env rng_key batch_size data_size) =
           data_size div batch_size"
  using assms by (simp add: selfplay_batches_def)

lemma selfplay_batches_nth:
  assumes "\<forall>n. length (random_split c rng_key n) = n" "j < data_size div batch_size"
  shows "selfplay_batches c agent env rng_key batch_size data_size ! j =
           collect_batched_selfplay_data c agent env
             (random_split c rng_key (data_size div batch_size) ! j) batch_size"
  using assms by (simp add: selfplay_batches_def)

lemma driver_games_concat:
  "length (concat (map terminated
      (map (\<lambda>k. collect_batched_selfplay_data c agent env k batch_size) ks))) =
    length ks * batch_size"
  by (induction ks) (simp_all add: driver_games)

lemma selfplay_batches_games:
  "length (concat (map terminated
       (selfplay_batches c agent env rng_key batch_size data_size))) =
     length (selfplay_batches c agent env rng_key batch_size data_size) * batch_size"
  unfolding selfplay_batches_def Let_def
  by (simp only: driver_games_concat length_map)

lemma collect_selfplay_data_empty:
  assumes "0 < batch_size" "data_size < batch_size" "\<forall>n. length (random_split c rng_key n) = n"
  shows "selfplay_batches c agent env rng_key batch_size data_size = []"
    and "collect_selfplay_data c agent env rng_key batch_size data_size = Inl TypeError"
proof -
  from assms(3) have "length (random_split c rng_key 0) = 0" by blast
  with assms(2) show e: "selfplay_batches c agent env rng_key batch_size data_size = []"
    by (simp add: selfplay_batches_def)
  with assms(1) show "collect_selfplay_data c agent env rng_key batch_size data_size =
      Inl TypeError"
    by (simp add: collect_selfplay_data_def concatenate_batches_def)
qed

lemma collect_selfplay_data_nonempty:
  assumes "0 < batch_size" "batch_size \<le> data_size" "\<forall>n. length (random_split c rng_key n) = n"
  shows "collect_selfplay_data c agent env rng_key batch_size data_size =
     Inr \<lparr>MoveOutput.state = concat (map MoveOutput.state
              (selfplay_batches c agent env rng_key batch_size data_size)),
          reward = concat (map reward
              (selfplay_batches c agent env rng_key batch_size data_size)),
          terminated = concat (map terminated
              (selfplay_batches c agent env rng_key batch_size data_size)),
          MoveOutput.action_weights = concat (map MoveOutput.action_weights
              (selfplay_batches c agent env rng_key batch_size data_size))\<rparr>"
proof -
  from assms(1,2) have "0 < data_size div batch_size"
    by (simp add: div_greater_zero_iff)
  with selfplay_batches_length [OF assms(3), of agent env batch_size data_size]
  have "selfplay_batches c agent env rng_key batch_size data_size \<noteq> []"
    by auto
  with assms(1) show ?thesis
    by (simp add: collect_selfplay_data_def concatenate_batches_def)
qed

text \<open>
  Claim C8 (corpus collection), for a batch size of at least one and a corpus of at least
  one batch: the driver is called \<open>data_size div batch_size\<close> times, call \<open>j\<close> with the
  \<open>j\<close>-th of the keys split from the master key, and the result is the concatenation of the
  batches along the game axis, field by field.
\<close>

theorem corpus_collection:
  assumes "0 < batch_size" and "batch_size \<le> data_size"
    and "\<forall>n. length (random_split c rng_key n) = n"
  shows "let N = data_size div batch_size;
             data = selfplay_batches c agent env rng_key batch_size data_size
         in length data = N \<and>
            (\<forall>j < N. data ! j =
               collect_batched_selfplay_data c agent env (random_split c rng_key N ! j)
                 batch_size) \<and>
            collect_selfplay_data c agent env rng_key batch_size data_size =
              Inr \<lparr>MoveOutput.state = concat (map MoveOutput.state data),
                   reward = concat (map reward data),
                   terminated = concat (map terminated data),
                   MoveOutput.action_weights = concat (map MoveOutput.action_weights data)\<rparr>"
  unfolding Let_def
  using selfplay_batches_length [OF assms(3)] selfplay_batches_nth [OF assms(3)]
    collect_selfplay_data_nonempty [OF assms]
  by simp

text \<open>
  Claim C10 (floor-division truncation), as the source has it. When \<open>batch_size\<close> does not
  divide \<open>data_size\<close>: for \<open>batch_size < data_size\<close> the driver is called
  \<open>data_size div batch_size\<close> times and the result holds that many times \<open>batch_size\<close> games,
  fewer than \<open>data_size\<close>, without an error; for \<open>data_size < batch_size\<close> no call is made
  and TypeError is raised.
\<close>

theorem floor_division_truncation:
  assumes "0 < batch_size" and "\<not> batch_size dvd data_size"
    and "\<forall>n. length (random_split c rng_key n) = n"
  shows "(batch_size < data_size \<longrightarrow>
            (\<exists>data. collect_selfplay_data c agent env rng_key batch_size data_size = Inr data \<and>
               length (selfplay_batches c agent env rng_key batch_size data_size) =
                 data_size div batch_size \<and>
               length (terminated data) = data_size div batch_size * batch_size \<and>
               length (terminated data) < data_size)) \<and>
         (data_size < batch_size \<longrightarrow>
            selfplay_batches c agent env rng_key batch_size data_size = [] \<and>
            collect_selfplay_data c agent env rng_key batch_size data_size = Inl TypeError)"
proof (intro conjI impI)
  assume lt: "batch_size < data_size"
  then have le: "batch_size \<le> data_size" by simp
  have "data_size div batch_size * batch_size \<noteq> data_size"
    using assms(2) by (metis dvd_triv_right)
  moreover have "data_size div batch_size * batch_size \<le> data_size"
    by simp
  ultimately have less: "data_size div batch_size * batch_size < data_size"
    by linarith
  show "\<exists>data. collect_selfplay_data c agent env rng_key batch_size data_size = Inr data \<and>
               length (selfplay_batches c agent env rng_key batch_size data_size) =
                 data_size div batch_size \<and>
               length (terminated data) = data_size div batch_size * batch_size \<and>
               length (terminated data) < data_size"
    using collect_selfplay_data_nonempty [OF assms(1) le assms(3), of agent env]
      selfplay_batches_length [OF assms(3), of agent env batch_size data_size]
      selfplay_batches_games [of c agent env rng_key batch_size data_size] less
    by simp
next
  assume lt: "data_size < batch_size"
  show "selfplay_batches c agent env rng_key batch_size data_size = []"
    by (rule collect_selfplay_data_empty(1) [OF assms(1) lt assms(3)])
  show "collect_selfplay_data c agent env rng_key batch_size data_size = Inl TypeError"
    by (rule collect_selfplay_data_empty(2) [OF assms(1) lt assms(3)])
qed

lemma counter_game_split: "\<forall>n. length (random_split counter_game key n) = n"
  by (simp add: counter_game_def)

lemma counter_game_driver:
  "collect_batched_selfplay_data counter_game () env key 2 =
     \<lparr>MoveOutput.state = [[0, 1, 2, 3], [0, 1, 2, 3]],
      reward = [[0, 0, 1, 0], [0, 0, 1, 0]],
      terminated = [[False, False, False, True], [False, False, False, True]],
      MoveOutput.action_weights =
        [[10 * key + 1, 10 * (10 * key + 2) + 1, 10 * (10 * (10 * key + 2) + 2) + 1,
          10 * (10 * (10 * (10 * key + 2) + 2) + 2) + 1],
         [10 * key + 1, 10 * (10 * key + 2) + 1, 10 * (10 * (10 * key + 2) + 2) + 1,
          10 * (10 * (10 * (10 * key + 2) + 2) + 2) + 1]]\<rparr>"
  by (simp add: collect_batched_selfplay_data_def scan_4 single_move_def counter_game_def
      batch_major_def Let_def numeral_2_eq_2)

lemma counter_game_keys:
  "random_split counter_game 3 2 = [31, 32]" "random_split counter_game 3 0 = []"
  by (simp_all add: counter_game_def numeral_2_eq_2)

theorem corpus_collection_witness:
  "(0::nat) < 2 \<and> (2::nat) \<le> 4 \<and> (\<forall>n. length (random_split counter_game 3 n) = n) \<and>
   random_split counter_game 3 (4 div 2) = [31, 32] \<and>
   selfplay_batches counter_game () 7 3 2 4 =
     [collect_batched_selfplay_data counter_game () 7 31 2,
      collect_batched_selfplay_data counter_game () 7 32 2] \<and>
   map_sum id terminated (collect_selfplay_data counter_game () 7 3 2 4) =
     Inr [[False, False, False, True], [False, False, False, True],
          [False, False, False, True], [False, False, False, True]]"
proof -
  have h: "\<forall>n. length (random_split counter_game 3 n) = n"
    by (rule counter_game_split)
  have b: "selfplay_batches counter_game () 7 3 2 4 =
     [collect_batched_selfplay_data counter_game () 7 31 2,
      collect_batched_selfplay_data counter_game () 7 32 2]"
    by (simp add: selfplay_batches_def counter_game_keys)
  from corpus_collection [of 2 4 counter_game 3 "()" 7, OF _ _ h]
  have "map_sum id terminated (collect_selfplay_data counter_game () 7 3 2 4) =
      Inr (concat (map terminated (selfplay_batches counter_game () 7 3 2 4)))"
    by (simp add: Let_def)
  then have c: "map_sum id terminated (collect_selfplay_data counter_game () 7 3 2 4) =
     Inr [[False, False, False, True], [False, False, False, True],
          [False, False, False, True], [False, False, False, True]]"
    by (simp add: b counter_game_driver)
  show ?thesis using h b c by (simp add: counter_game_keys)
qed

text \<open>
  The claim of C8 for every corpus size fails for a corpus smaller than one batch
  (\<open>data_size = 16\<close>, \<open>batch_size = 32\<close>): no driver call is made and the
  concatenation of no batch raises TypeError instead of giving a result.
\<close>

theorem corpus_collection_small_corpus:
  "selfplay_batches counter_game () 7 3 32 16 = [] \<and>
   collect_selfplay_data counter_game () 7 3 32 16 = Inl TypeError"
  by (simp add: collect_selfplay_data_def selfplay_batches_def concatenate_batches_def
      counter_game_keys)

theorem floor_division_truncation_witness:
  "(0::nat) < 2 \<and> \<not> (2::nat) dvd 5 \<and> (2::nat) < 5 \<and>
   (\<forall>n. length (random_split counter_game 3 n) = n) \<and>
   length (selfplay_batches counter_game () 7 3 2 5) = 2 \<and>
   map_sum id terminated (collect_selfplay_data counter_game () 7 3 2 5) =
     Inr [[False, False, False, True], [False, False, False, True],
          [False, False, False, True], [False, False, False, True]]"
proof -
  have h: "\<forall>n. length (random_split counter_game 3 n) = n"
    by (rule counter_game_split)
  have b: "selfplay_batches counter_game () 7 3 2 5 =
     [collect_batched_selfplay_data counter_game () 7 31 2,
      collect_batched_selfplay_data counter_game () 7 32 2]"
    by (simp add: selfplay_batches_def counter_game_keys)
  from floor_division_truncation [of 2 5 counter_game 3 "()" 7, OF _ _ h]
  obtain data where d: "collect_selfplay_data counter_game () 7 3 2 5 = Inr data"
    "length (terminated data) = 4"
    by auto
  have c: "map_sum id terminated (collect_selfplay_data counter_game () 7 3 2 5) =
     Inr [[False, False, False, True], [False, False, False, True],
          [False, False, False, True], [False, False, False, True]]"
    by (simp add: collect_selfplay_data_def concatenate_batches_def b counter_game_driver)
  show ?thesis using h b c d by simp
qed

text \<open>
  The last part of claim C10 (data from zero games is returned for
  \<open>data_size < batch_size\<close>) fails for \<open>data_size = 3\<close>, \<open>batch_size = 5\<close>: nothing is returned.
\<close>

theorem floor_division_zero_calls_raises:
  "\<not> (5::nat) dvd 3 \<and> (3::nat) < 5 \<and>
   selfplay_batches counter_game () 7 3 5 3 = [] \<and>
   collect_selfplay_data counter_game () 7 3 5 3 = Inl TypeError \<and>
   \<not> (\<exists>data. collect_selfplay_data counter_game () 7 3 5 3 = Inr data)"
  by (simp add: collect_selfplay_data_def selfplay_batches_def concatenate_batches_def
      counter_game_keys)

section \<open>Sign of the losses\<close>

text \<open>
  Supporting facts for claim C5: the value loss is never negative, and the policy loss is
  not negative as long as the floor \<open>-50\<close> does not cut the log-softmax of the action
  weights (for action weights in \<open>[0, 1]\<close> that is every row of fewer than \<open>e\<^sup>4\<^sup>9\<close> actions).
\<close>

lemma mean_nonneg: "\<forall>x\<in>set xs. 0 \<le> x \<Longrightarrow> 0 \<le> mean xs"
  by (simp add: mean_def sum_list_nonneg)

lemma value_loss_nonneg: "0 \<le> value_loss (loss_fn batched_policy net data)"
proof -
  obtain logits v where bp: "batched_policy net (TrainingExample.state data) = (logits, v)"
    by (cases "batched_policy net (TrainingExample.state data)")
  have "0 \<le> mean (map2 l2_loss v (value data))"
    by (rule mean_nonneg) (auto simp: l2_loss_def)
  then show ?thesis
    by (simp add: value_loss_def loss_fn_def bp Let_def)
qed

lemma gibbs_pointwise:
  fixes p l :: real
  assumes "0 < p"
  shows "p - exp l \<le> p * (ln p - l)"
proof -
  have "ln (exp l / p) \<le> exp l / p - 1"
    using assms by (intro ln_le_minus_one) simp
  then have "l - ln p \<le> exp l / p - 1"
    using assms by (simp add: ln_div)
  then have "p * (l - ln p) \<le> p * (exp l / p - 1)"
    using assms by (intro mult_left_mono) simp_all
  then have "p * (l - ln p) \<le> exp l - p"
    using assms by (simp add: right_diff_distrib)
  then show ?thesis by (simp add: right_diff_distrib)
qed

lemma gibbs_list:
  fixes ps ls :: "real list"
  assumes "length ps = length ls" "\<forall>p\<in>set ps. 0 < p"
  shows "sum_list ps - sum_list (map exp ls) \<le> sum_list (map2 (\<lambda>p l. p * (ln p - l)) ps ls)"
  using assms
proof (induction ps ls rule: list_induct2)
  case Nil
  show ?case by simp
next
  case (Cons p ps l ls)
  then have "sum_list ps - sum_list (map exp ls) \<le>
      sum_list (map2 (\<lambda>p l. p * (ln p - l)) ps ls)" by simp
  moreover have "p - exp l \<le> p * (ln p - l)"
    using Cons.prems by (intro gibbs_pointwise) simp
  ultimately show ?case by simp
qed

lemma sum_list_exp_pos:
  fixes xs :: "real list"
  assumes "xs \<noteq> []"
  shows "0 < sum_list (map exp xs)"
proof (cases xs)
  case Nil
  with assms show ?thesis by simp
next
  case (Cons x ys)
  have "0 \<le> sum_list (map exp ys)" by (rule sum_list_nonneg) auto
  with Cons show ?thesis by (simp add: add_pos_nonneg)
qed

lemma sum_exp_log_softmax:
  assumes "xs \<noteq> []"
  shows "sum_list (map exp (log_softmax xs)) = 1"
proof -
  let ?Z = "sum_list (map exp xs)"
  have Z: "0 < ?Z"
    using assms by (rule sum_list_exp_pos)
  have "map exp (log_softmax xs) = map (\<lambda>x. exp x * (1 / ?Z)) xs"
    using Z by (simp add: log_softmax_def exp_diff comp_def)
  then have "sum_list (map exp (log_softmax xs)) = ?Z * (1 / ?Z)"
    by (simp only: sum_list_mult_const mult.commute)
  with Z show ?thesis by simp
qed

lemma kl_row_shape:
  fixes lg ts :: "real list"
  shows "sum_list (map2 (*) (map exp lg) (map2 (-) lg ts)) =
   sum_list (map2 (\<lambda>p l. p * (ln p - l)) (map exp lg) ts)"
proof (induction lg arbitrary: ts)
  case Nil
  show ?case by simp
next
  case (Cons a lg)
  then show ?case by (cases ts) simp_all
qed

lemma kl_row_nonneg:
  assumes "logits \<noteq> []" "length logits = length w" "\<forall>x\<in>set (log_softmax w). - 50 \<le> x"
  shows "0 \<le> sum_list (map2 (*) (map exp (log_softmax logits))
           (map2 (-) (log_softmax logits) (map (clip_min (- 50)) (log_softmax w))))"
proof -
  from assms(1,2) have w: "w \<noteq> []" by auto
  have clip: "map (clip_min (- 50)) (log_softmax w) = log_softmax w"
    using assms(3) by (simp add: clip_min_def map_idI)
  have len: "length (map exp (log_softmax logits)) = length (log_softmax w)"
    using assms(2) by (simp add: log_softmax_def)
  have pos: "\<forall>p\<in>set (map exp (log_softmax logits)). 0 < p" by simp
  from gibbs_list [OF len pos]
  have "0 \<le> sum_list (map2 (\<lambda>p l. p * (ln p - l)) (map exp (log_softmax logits))
      (log_softmax w))"
    by (simp add: sum_exp_log_softmax [OF assms(1)] sum_exp_log_softmax [OF w])
  then show ?thesis by (simp only: clip kl_row_shape)
qed

lemma zip_self_zip:
  "zip xs (zip xs ys) = map (\<lambda>p. (fst p, fst p, snd p)) (zip xs ys)"
proof (induction xs arbitrary: ys)
  case Nil
  show ?case by simp
next
  case (Cons x xs)
  then show ?case by (cases ys) simp_all
qed

lemma policy_loss_nonneg:
  assumes "\<forall>(l, w) \<in> set (zip (fst (batched_policy net (TrainingExample.state data)))
                            (TrainingExample.action_weights data)).
             l \<noteq> [] \<and> length l = length w \<and> (\<forall>x\<in>set (log_softmax w). - 50 \<le> x)"
  shows "0 \<le> policy_loss (loss_fn batched_policy net data)"
proof -
  obtain logits v where bp: "batched_policy net (TrainingExample.state data) = (logits, v)"
    by (cases "batched_policy net (TrainingExample.state data)")
  let ?rows = "map2 (\<lambda>l w. sum_list (map2 (*) (map exp (log_softmax l))
           (map2 (-) (log_softmax l) (map (clip_min (- 50)) (log_softmax w)))))
        logits (TrainingExample.action_weights data)"
  have "\<forall>x\<in>set ?rows. 0 \<le> x"
    using assms by (auto simp: bp intro!: kl_row_nonneg)
  then have "0 \<le> mean ?rows" by (rule mean_nonneg)
  moreover have "policy_loss (loss_fn batched_policy net data) = mean ?rows"
    by (simp add: policy_loss_def loss_fn_def bp Let_def zip_map_map zip_map1 zip_map2
        split_def comp_def zip_self_zip)
  ultimately show ?thesis by simp
qed

section \<open>Shape of the collected corpus\<close>

text \<open>
  Whatever the collaborators are, the corpus that \<open>collect_selfplay_data\<close> returns has four
  arrays of the same shape, so the trajectory compiler does not raise on it and the
  properties of the compiler above apply to it.
\<close>

lemma transpose_4_rows:
  assumes "length a = n" "length b = n" "length c = n" "length d = n"
  shows "transpose [a, b, c, d] = map (\<lambda>i. [a ! i, b ! i, c ! i, d ! i]) [0..<n]"
proof -
  have rect: "\<And>i. i < length [a, b, c, d] \<Longrightarrow> length ([a, b, c, d] ! i) = n"
    using assms by (auto simp: less_Suc_eq nth_Cons')
  have "transpose [a, b, c, d] =
      map (\<lambda>i. map (\<lambda>j. [a, b, c, d] ! j ! i) [0..<length [a, b, c, d]]) [0..<n]"
    by (rule transpose_rectangle [OF _ rect]) simp_all
  moreover have "[0..<length [a, b, c, d]] = [0, 1, 2, 3]"
    by (simp add: upt_rec)
  ultimately show ?thesis by simp
qed

lemma same_shape_transposed:
  assumes "length a = n" "length b = n" "length c = n" "length d = n"
    and "length a' = n" "length b' = n" "length c' = n" "length d' = n"
  shows "same_shape (transpose [a, b, c, d]) (transpose [a', b', c', d'])"
  by (simp add: transpose_4_rows [OF assms(1-4)] transpose_4_rows [OF assms(5-8)]
      same_shape_def list_all2_conv_all_nth)

lemma same_shape_concat:
  assumes "list_all2 same_shape xss yss"
  shows "same_shape (concat xss) (concat yss)"
  using assms unfolding same_shape_def
  by (induction rule: list_all2_induct) (auto intro: list_all2_appendI)

lemma driver_wf: "wf_batch (collect_batched_selfplay_data c agent env rng_key batch_size)"
proof -
  obtain e1 k1 y1 where s1:
    "single_move c agent (replicate batch_size (reset_env c env), rng_key) = ((e1, k1), y1)"
    by (metis surj_pair)
  obtain e2 k2 y2 where s2: "single_move c agent (e1, k1) = ((e2, k2), y2)"
    by (metis surj_pair)
  obtain e3 k3 y3 where s3: "single_move c agent (e2, k2) = ((e3, k3), y3)"
    by (metis surj_pair)
  obtain e4 k4 y4 where s4: "single_move c agent (e3, k3) = ((e4, k4), y4)"
    by (metis surj_pair)
  note l1 = single_move_lengths [OF s1]
  note l2 = single_move_lengths [OF s2]
  note l3 = single_move_lengths [OF s3]
  note l4 = single_move_lengths [OF s4]
  have "collect_batched_selfplay_data c agent env rng_key batch_size =
      batch_major [y1, y2, y3, y4]"
    by (simp add: collect_batched_selfplay_data_def scan_4 s1 s2 s3 s4)
  then show ?thesis
    using l1 l2 l3 l4
    by (simp add: batch_major_def wf_batch_def same_shape_transposed [where n = batch_size])
qed

lemma collected_wf:
  assumes "collect_selfplay_data c agent env rng_key batch_size data_size = Inr data"
  shows "wf_batch data"
proof -
  let ?bs = "selfplay_batches c agent env rng_key batch_size data_size"
  have wf: "\<forall>b\<in>set ?bs. wf_batch b"
    by (auto simp: selfplay_batches_def driver_wf)
  from assms have data: "data =
      \<lparr>MoveOutput.state = concat (map MoveOutput.state ?bs),
       reward = concat (map reward ?bs),
       terminated = concat (map terminated ?bs),
       MoveOutput.action_weights = concat (map MoveOutput.action_weights ?bs)\<rparr>"
    by (auto simp: collect_selfplay_data_def concatenate_batches_def split: if_splits)
  have "list_all2 same_shape (map terminated ?bs) (map MoveOutput.state ?bs)"
    "list_all2 same_shape (map terminated ?bs) (map MoveOutput.action_weights ?bs)"
    "list_all2 same_shape (map terminated ?bs) (map reward ?bs)"
    using wf by (simp_all add: list_all2_map1 list_all2_map2 list_all2_same wf_batch_def)
  then show ?thesis
    unfolding data by (simp add: wf_batch_def same_shape_concat)
qed

lemma collected_data_compiles:
  assumes "collect_selfplay_data c agent env rng_key batch_size data_size = Inr data"
  shows "prepare_training_data data =
           Inr (concat (map (examples_of_game data) [0..<length (terminated data)]))"
  by (rule prepare_training_data_concat [OF collected_wf [OF assms]])

end
